theory Spec2Isabelle
  imports Main "HOL-Library.Word"
begin

unbundle bit_operations_syntax

section \<open>Errors and panics\<close>

type_synonym byte = "8 word"

text \<open>
  The error values of errors.go. \<open>ErrNet\<close> stands for an error of the network library
  (a failed dial, write or close), which the client passes through unchanged.
\<close>

datatype error =
    ErrInvalidMessageBufferSize
  | ErrInvalidPacketSize
  | ErrInvalidHeader
  | ErrInvalidChecksum
  | ErrInvalidEndOfHeader
  | ErrUnknownPacketType
  | ErrInvalidLoginResponse
  | ErrNilOption
  | ErrLoginFailed
  | ErrTimeout
  | ErrNet string

text \<open>
  A Go function either returns (a value or an error) or panics at run time (an index out
  of range, a method call on a nil interface). \<open>Inl Panic\<close> is the panic, \<open>Inl (Err e)\<close>
  the returned error, \<open>Inr v\<close> the returned value.
\<close>

datatype fault = Panic | Err error

definition andThen :: "fault + 'a \<Rightarrow> ('a \<Rightarrow> fault + 'b) \<Rightarrow> fault + 'b" where
  "andThen r f = (case r of Inl e \<Rightarrow> Inl e | Inr v \<Rightarrow> f v)"

text \<open>Go's index expression \<open>xs[i]\<close> and slice expressions \<open>xs[lo:hi]\<close>, \<open>xs[lo:]\<close>,
  which panic out of range.\<close>

definition index :: "'a list \<Rightarrow> nat \<Rightarrow> fault + 'a" where
  "index xs i = (if i < length xs then Inr (xs ! i) else Inl Panic)"

definition slice :: "'a list \<Rightarrow> nat \<Rightarrow> nat \<Rightarrow> fault + 'a list" where
  "slice xs lo hi =
     (if lo \<le> hi \<and> hi \<le> length xs then Inr (take (hi - lo) (drop lo xs)) else Inl Panic)"

definition sliceFrom :: "'a list \<Rightarrow> nat \<Rightarrow> fault + 'a list" where
  "sliceFrom xs lo = (if lo \<le> length xs then Inr (drop lo xs) else Inl Panic)"

section \<open>The library functions the codec calls\<close>

text \<open>
  \<open>hash/crc32.ChecksumIEEE\<close> in the form of the library's table-driven reference
  implementation: the table entry of a byte is eight steps of the reflected polynomial
  division by \<open>0xEDB88320\<close>, and the update folds the bytes into the inverted register.
\<close>

definition crcStep :: "32 word \<Rightarrow> 32 word" where
  "crcStep c = (if bit c 0 then drop_bit 1 c XOR 0xEDB88320 else drop_bit 1 c)"

definition crcTable :: "byte \<Rightarrow> 32 word" where
  "crcTable i =
     crcStep (crcStep (crcStep (crcStep (crcStep (crcStep (crcStep (crcStep (ucast i))))))))"

definition crcUpdate :: "32 word \<Rightarrow> byte list \<Rightarrow> 32 word" where
  "crcUpdate crc p =
     NOT (fold (\<lambda>v c. crcTable (ucast c XOR v) XOR drop_bit 8 c) p (NOT crc))"

definition ChecksumIEEE :: "byte list \<Rightarrow> 32 word" where
  "ChecksumIEEE p = crcUpdate 0 p"

text \<open>\<open>encoding/binary.LittleEndian\<close>: \<open>Uint32\<close> panics on fewer than four bytes;
  \<open>PutUint32\<close> is given as the four bytes it writes.\<close>

definition Uint32 :: "byte list \<Rightarrow> fault + 32 word" where
  "Uint32 b =
     (if length b < 4 then Inl Panic
      else Inr (ucast (b ! 0) OR push_bit 8 (ucast (b ! 1))
                OR push_bit 16 (ucast (b ! 2)) OR push_bit 24 (ucast (b ! 3))))"


section \<open>Protocol constants (consts.go)\<close>

definition loginType :: byte where "loginType = 0"
definition commandType :: byte where "commandType = 1"
definition serverMessageType :: byte where "serverMessageType = 2"
definition multiPacketType :: byte where "multiPacketType = 0"

definition loginFailed :: byte where "loginFailed = 0"
definition loginSuccess :: byte where "loginSuccess = 1"

definition minPacketSize :: nat where "minPacketSize = 9"

section \<open>Outbound packets (packet.go)\<close>








section \<open>Inbound responses (parser.go)\<close>

record commandResponse =
  msg :: "byte list"
  seq :: byte
  multiSize :: byte
  multiIndex :: byte
  multi :: bool

record serverMessage =
  smSeq :: byte
  smMsg :: "byte list"

text \<open>\<open>parseResponse\<close> returns an \<open>interface{}\<close> holding one of three dynamic types.\<close>

datatype response =
    LoginResult bool
  | CommandResponse commandResponse
  | ServerMessage serverMessage

definition loginResponse :: "byte list \<Rightarrow> fault + bool" where
  "loginResponse raw =
     andThen (index raw 0) (\<lambda>r.
       if r = loginFailed then Inr False
       else if r = loginSuccess then Inr True
       else Inl (Err ErrInvalidLoginResponse))"

definition newCommandResponse :: "byte list \<Rightarrow> fault + commandResponse" where
  "newCommandResponse raw =
     andThen (index raw 0) (\<lambda>s.
     let cr = \<lparr>msg = [], seq = s, multiSize = 0, multiIndex = 0, multi = False\<rparr> in
     andThen (sliceFrom raw 1) (\<lambda>rest.
       if length rest = 0 then Inr cr
       else
         andThen (index raw 1) (\<lambda>m.
           if m = multiPacketType then
             andThen (index raw 2) (\<lambda>sz.
             andThen (index raw 3) (\<lambda>ix.
             andThen (sliceFrom raw 4) (\<lambda>body.
               Inr (cr\<lparr>multi := True, multiSize := sz, multiIndex := ix, msg := body\<rparr>))))
           else
             andThen (sliceFrom raw 1) (\<lambda>body. Inr (cr\<lparr>msg := body\<rparr>)))))"

definition newServerMessage :: "byte list \<Rightarrow> fault + serverMessage" where
  "newServerMessage raw =
     andThen (index raw 0) (\<lambda>s.
     andThen (sliceFrom raw 1) (\<lambda>body. Inr \<lparr>smSeq = s, smMsg = body\<rparr>))"

definition parseResponse :: "byte list \<Rightarrow> fault + response" where
  "parseResponse raw =
     (if length raw < minPacketSize then Inl (Err ErrInvalidPacketSize)
      else
        andThen (slice raw 0 2) (\<lambda>magic.
        if magic \<noteq> [0x42, 0x45] then Inl (Err ErrInvalidHeader)
        else
          andThen (index raw 6) (\<lambda>eoh.
          if eoh \<noteq> 0xff then Inl (Err ErrInvalidEndOfHeader)
          else
            andThen (sliceFrom raw 6) (\<lambda>pl.
            andThen (slice raw 2 6) (\<lambda>field.
            andThen (Uint32 field) (\<lambda>stored.
            if ChecksumIEEE pl \<noteq> stored then Inl (Err ErrInvalidChecksum)
            else
              andThen (index raw 7) (\<lambda>t.
                if t = loginType then
                  andThen (sliceFrom raw 8) (\<lambda>body.
                  andThen (loginResponse body) (\<lambda>ok. Inr (LoginResult ok)))
                else if t = commandType then
                  andThen (sliceFrom raw 8) (\<lambda>body.
                  andThen (newCommandResponse body) (\<lambda>cr. Inr (CommandResponse cr)))
                else if t = serverMessageType then
                  andThen (sliceFrom raw 8) (\<lambda>body.
                  andThen (newServerMessage body) (\<lambda>sm. Inr (ServerMessage sm)))
                else Inl (Err ErrUnknownPacketType))))))))"

section \<open>Fragment reassembly (parser.go)\<close>

text \<open>
  \<open>expected\<close> is the Go map \<open>map[byte]struct{}\<close> used as a set: only its keys carry
  information, and \<open>len\<close> is the number of keys. \<open>parts\<close> is the slice of bodies.
\<close>

record fragmentedResponse =
  expected :: "byte set"
  parts :: "byte list list"

text \<open>The loop \<open>for i := byte(0); i < size; i++\<close> runs over \<open>0 .. size - 1\<close>; as
  \<open>size \<le> 255\<close> the counter never wraps before the loop ends. (\<open>size\<close> is a constant
  of HOL, so the parameter is called \<open>n\<close> here and in \<open>MessageBuffer\<close>.)\<close>

definition newFragmentedResponse :: "byte \<Rightarrow> fragmentedResponse" where
  "newFragmentedResponse n =
     \<lparr>expected = fold (\<lambda>i m. insert (of_nat i) m) [0..<unat n] {},
      parts = replicate (unat n) []\<rparr>"

text \<open>\<open>fm.parts[cr.multiIndex] = cr.msg\<close> panics when the index is not below the length
  of the slice; the \<open>delete\<close> after it is then never reached.\<close>

definition add :: "commandResponse \<Rightarrow> fragmentedResponse \<Rightarrow> fault + fragmentedResponse" where
  "add cr fm =
     (if unat (multiIndex cr) < length (parts fm) then
        Inr (fm\<lparr>parts := (parts fm)[unat (multiIndex cr) := msg cr],
                expected := expected fm - {multiIndex cr}\<rparr>)
      else Inl Panic)"

definition completed :: "fragmentedResponse \<Rightarrow> bool" where
  "completed fm = (card (expected fm) = 0)"

text \<open>The method \<open>message\<close> of \<open>fragmentedResponse\<close> (here \<open>message_joined\<close>, as
  \<open>message\<close> is also the field of \<open>packet\<close>): \<open>strings.Join(fm.parts, "")\<close>.\<close>

definition message_joined :: "fragmentedResponse \<Rightarrow> byte list" where
  "message_joined fm = concat (parts fm)"

section \<open>The client (client.go, client_config_options.go)\<close>

text \<open>
  The connection and the channels are owned by the network library and the runtime; the
  model keeps what the client's own code observes. A \<open>netConn\<close> records what its
  \<open>Close\<close> will return; \<open>conn = None\<close> is the nil interface value that \<open>net.Dial\<close>
  returns together with an error. The buffered channel \<open>msgs\<close> is its capacity, its
  queue and whether it was closed. The field \<open>done\<close> is \<open>isDone\<close> here (\<open>done\<close> is a
  keyword): \<open>None\<close> is the nil pointer of a client on which \<open>newDone\<close> has not run,
  \<open>Some b\<close> is what \<open>IsDone\<close> returns, whether the done channel is closed.
  \<open>wg\<close> counts the goroutines of the wait group.
\<close>

record netConn =
  closeResult :: "error option"
  connClosed :: bool

record chan =
  chanCap :: int
  chanBuf :: "byte list list"
  chanClosed :: bool

record Client =
  conn :: "netConn option"
  ctr :: "64 word"
  timeout :: int
  keepAlive :: int
  msgBufSize :: int
  wg :: nat
  fragments :: "byte \<rightharpoonup> fragmentedResponse"
  lastSend :: int
  isDone :: "bool option"
  msgs :: "chan option"

definition defaultTimeout :: int where "defaultTimeout = 10 * 1000000000"
definition defaultKeepAlive :: int where "defaultKeepAlive = 30 * 1000000000"
definition defaultMessageBufferSize :: int where "defaultMessageBufferSize = 100"

text \<open>An \<open>Option\<close> is a Go function value \<open>func(c *Client) error\<close>, possibly nil
  (\<open>None\<close>). It may change the client and returns an error or nil.\<close>

type_synonym Option = "(Client \<Rightarrow> Client \<times> error option) option"

definition Timeout :: "int \<Rightarrow> Option" where
  "Timeout t = Some (\<lambda>c. (c\<lparr>timeout := t\<rparr>, None))"

definition KeepAlive :: "int \<Rightarrow> Option" where
  "KeepAlive interval = Some (\<lambda>c. (c\<lparr>keepAlive := interval\<rparr>, None))"

definition MessageBuffer :: "int \<Rightarrow> Option" where
  "MessageBuffer n =
     Some (\<lambda>c. if n < 1 then (c, Some ErrInvalidMessageBufferSize)
               else (c\<lparr>msgBufSize := n\<rparr>, None))"

text \<open>The loop of \<open>NewClient\<close> over its options: the first nil option or the first
  option that returns an error ends the construction.\<close>

fun applyOptions :: "Option list \<Rightarrow> Client \<Rightarrow> error + Client" where
  "applyOptions [] c = Inr c"
| "applyOptions (None # opts) c = Inl ErrNilOption"
| "applyOptions (Some opt # opts) c =
     (case opt c of
        (c', Some e) \<Rightarrow> Inl e
      | (c', None) \<Rightarrow> applyOptions opts c')"

text \<open>
  What the network and the runtime do during construction is an input of the model: the
  result of \<open>net.Dial\<close>, the result of writing the login packet, which of the three
  events of the \<open>select\<close> comes first, and \<open>allocLimit\<close>, the number of bytes the
  runtime can give to the buffer of a channel (its allocation limit less the channel
  header, and less where memory is short).
\<close>

datatype loginWait = LoginTimer | LoginErrs error | LoginSignal bool

record env =
  dial :: "error + netConn"
  loginWrite :: "error option"
  loginEvent :: loginWait
  allocLimit :: int

definition connect :: "Client \<Rightarrow> env \<Rightarrow> Client \<times> error option" where
  "connect c e =
     (case dial e of
        Inl err \<Rightarrow> (c\<lparr>conn := None\<rparr>, Some err)
      | Inr k \<Rightarrow>
          let c1 = c\<lparr>conn := Some k, wg := wg c + 1\<rparr> in
          (case loginWrite e of
             Some err \<Rightarrow> (c1, Some err)
           | None \<Rightarrow>
               (case loginEvent e of
                  LoginTimer \<Rightarrow> (c1, Some ErrTimeout)
                | LoginErrs err \<Rightarrow> (c1, Some err)
                | LoginSignal success \<Rightarrow>
                    if \<not> success then (c1, Some ErrLoginFailed)
                    else (c1\<lparr>wg := wg c1 + 1\<rparr>, None))))"

text \<open>
  \<open>Close\<close>: \<open>c.done.IsDone()\<close> dereferences \<open>c.done\<close>; \<open>c.wg.Wait()\<close> returns once the
  goroutines, which watch the done channel, have left; \<open>close(c.msgs)\<close> panics on a nil
  or closed channel; \<open>c.conn.Close()\<close> is a method call on the interface value
  \<open>c.conn\<close> and panics when that is nil. The result is the returned error and the client.
\<close>

definition Close :: "Client \<Rightarrow> fault + (error option \<times> Client)" where
  "Close c =
     (case isDone c of
        None \<Rightarrow> Inl Panic
      | Some d \<Rightarrow>
          if d then Inr (None, c)
          else
            let c1 = c\<lparr>isDone := Some True, wg := 0\<rparr> in
            (case msgs c1 of
               None \<Rightarrow> Inl Panic
             | Some ch \<Rightarrow>
                 if chanClosed ch then Inl Panic
                 else
                   let c2 = c1\<lparr>msgs := Some (ch\<lparr>chanClosed := True\<rparr>)\<rparr> in
                   (case conn c2 of
                      None \<Rightarrow> Inl Panic
                    | Some k \<Rightarrow>
                        Inr (closeResult k, c2\<lparr>conn := Some (k\<lparr>connClosed := True\<rparr>)\<rparr>))))"

text \<open>
  \<open>make(chan string, n)\<close>: the runtime panics ("makechan: size out of range") when
  \<open>n\<close> is negative, when the size of the buffer, \<open>n\<close> strings of 16 bytes each on a
  64-bit platform, overflows the machine word, or when it exceeds what the runtime can
  allocate.
\<close>

definition makeChan :: "env \<Rightarrow> int \<Rightarrow> fault + chan" where
  "makeChan e n =
     (if n < 0 \<or> 2 ^ 64 \<le> 16 * n \<or> allocLimit e < 16 * n then Inl Panic
      else Inr \<lparr>chanCap = n, chanBuf = [], chanClosed = False\<rparr>)"

text \<open>\<open>NewClient\<close>; the address and the password only reach the network, whose answers
  are in \<open>env\<close>. The channels without buffer are always made; \<open>msgs\<close> is made with
  the configured capacity. A failed \<open>connect\<close> closes the client and returns the error
  of \<open>connect\<close>; the result of that \<open>Close\<close> is dropped, a panic in it is not.\<close>

definition NewClient :: "Option list \<Rightarrow> env \<Rightarrow> fault + Client" where
  "NewClient options e =
     (let c0 = \<lparr>conn = None, ctr = 0, timeout = defaultTimeout, keepAlive = defaultKeepAlive,
                msgBufSize = defaultMessageBufferSize, wg = 0, fragments = Map.empty,
                lastSend = 0, isDone = None, msgs = None\<rparr>
      in case applyOptions options c0 of
           Inl err \<Rightarrow> Inl (Err err)
         | Inr c \<Rightarrow>
             (case makeChan e (msgBufSize c) of
                Inl f \<Rightarrow> Inl f
              | Inr ch \<Rightarrow>
                  let c1 = c\<lparr>isDone := Some False, msgs := Some ch, fragments := Map.empty\<rparr>
                  in (case connect c1 e of
                        (c2, Some err) \<Rightarrow>
                          (case Close c2 of Inl f \<Rightarrow> Inl f | Inr r \<Rightarrow> Inl (Err err))
                      | (c2, None) \<Rightarrow> Inr c2)))"

text \<open>The sequence counter: the method \<open>seq\<close> (here \<open>Client_seq\<close>, as \<open>seq\<close> is also
  the field of \<open>commandResponse\<close>) truncates the 64-bit counter to a byte.\<close>

definition Client_seq :: "Client \<Rightarrow> byte" where
  "Client_seq c = ucast (ctr c)"

definition incr :: "Client \<Rightarrow> Client" where
  "incr c = c\<lparr>ctr := ctr c + 1\<rparr>"



text \<open>
  \<open>handleCommandResponse\<close>: the result is the client and the body sent on the \<open>cmds\<close>
  channel, if one is sent. The map holds pointers, so the entry changed by \<open>add\<close> is
  the one in the map. No statement removes an entry from \<open>c.fragments\<close>.
\<close>

definition handleCommandResponse ::
  "commandResponse \<Rightarrow> Client \<Rightarrow> fault + (Client \<times> byte list option)" where
  "handleCommandResponse r c =
     (if seq r \<noteq> Client_seq c then Inr (c, None)
      else if \<not> multi r then Inr (incr c, Some (msg r))
      else
        let (fr, c1) =
              (case fragments c (seq r) of
                 Some fr \<Rightarrow> (fr, c)
               | None \<Rightarrow>
                   let fr = newFragmentedResponse (multiSize r)
                   in (fr, c\<lparr>fragments := (fragments c)(seq r \<mapsto> fr)\<rparr>))
        in case add r fr of
             Inl f \<Rightarrow> Inl f
           | Inr fr' \<Rightarrow>
               let c2 = c1\<lparr>fragments := (fragments c1)(seq r \<mapsto> fr')\<rparr> in
               if completed fr' then Inr (incr c2, Some (message_joined fr'))
               else Inr (c2, None))"

text \<open>The receiver goroutine applied to the command responses it decodes, in order; the
  second component collects what was sent on \<open>cmds\<close>.\<close>

fun receiver :: "commandResponse list \<Rightarrow> Client \<Rightarrow> fault + (Client \<times> byte list list)" where
  "receiver [] c = Inr (c, [])"
| "receiver (r # rs) c =
     (case handleCommandResponse r c of
        Inl f \<Rightarrow> Inl f
      | Inr (c', out) \<Rightarrow>
          (case receiver rs c' of
             Inl f \<Rightarrow> Inl f
           | Inr (c'', outs) \<Rightarrow>
               Inr (c'', (case out of None \<Rightarrow> [] | Some m \<Rightarrow> [m]) @ outs)))"

section \<open>Evaluating the checksum\<close>

lemma ChecksumIEEE_fold:
  "ChecksumIEEE p =
     fold (\<lambda>v c. crcTable (ucast c XOR v) XOR drop_bit 8 c) p 0xFFFFFFFF XOR 0xFFFFFFFF"
proof -
  have m: "(0xFFFFFFFF :: 32 word) = - 1" by simp
  show ?thesis unfolding ChecksumIEEE_def crcUpdate_def m by simp
qed

lemmas crc_eval = ChecksumIEEE_fold
  crcTable_def [of "numeral n" for n] crcTable_def [of 0] crcTable_def [of 1]
  crcStep_def [of "numeral n" for n] crcStep_def [of 0] crcStep_def [of 1]



section \<open>The decoder, check by check\<close>

lemma parseResponse_unfold:
  assumes "9 \<le> length raw"
  shows "parseResponse raw =
     (if take 2 raw \<noteq> [0x42, 0x45] then Inl (Err ErrInvalidHeader)
      else if raw ! 6 \<noteq> 0xff then Inl (Err ErrInvalidEndOfHeader)
      else if Inr (ChecksumIEEE (drop 6 raw)) \<noteq> Uint32 (take 4 (drop 2 raw))
        then Inl (Err ErrInvalidChecksum)
      else if raw ! 7 = loginType then
        andThen (loginResponse (drop 8 raw)) (\<lambda>ok. Inr (LoginResult ok))
      else if raw ! 7 = commandType then
        andThen (newCommandResponse (drop 8 raw)) (\<lambda>cr. Inr (CommandResponse cr))
      else if raw ! 7 = serverMessageType then
        andThen (newServerMessage (drop 8 raw)) (\<lambda>sm. Inr (ServerMessage sm))
      else Inl (Err ErrUnknownPacketType))"
proof -
  have len: "\<not> length raw < minPacketSize"
    using assms by (simp add: minPacketSize_def)
  have s1: "slice raw 0 2 = Inr (take 2 raw)"
    using assms by (simp add: slice_def)
  have s2: "index raw 6 = Inr (raw ! 6)" "index raw 7 = Inr (raw ! 7)"
    using assms by (simp_all add: index_def)
  have s3: "sliceFrom raw 6 = Inr (drop 6 raw)" "sliceFrom raw 8 = Inr (drop 8 raw)"
    using assms by (simp_all add: sliceFrom_def)
  have s4: "slice raw 2 6 = Inr (take 4 (drop 2 raw))"
    using assms by (simp add: slice_def)
  obtain w where w: "Uint32 (take 4 (drop 2 raw)) = Inr w"
    using assms by (simp add: Uint32_def)
  show ?thesis
    unfolding parseResponse_def
    by (simp add: len s1 s2 s3 s4 w andThen_def)
qed

text \<open>
  Claim C3. \<open>parseResponse\<close> checks in this order, each failure with its own error: a
  length below 9 gives \<open>ErrInvalidPacketSize\<close>; else first two bytes other than
  \<open>0x42 0x45\<close> give \<open>ErrInvalidHeader\<close>; else a byte 6 other than \<open>0xff\<close> gives
  \<open>ErrInvalidEndOfHeader\<close>; else a CRC32 of the bytes from 6 on that differs from the
  little-endian value of bytes 2 to 5 gives \<open>ErrInvalidChecksum\<close>; else a byte 7 that is
  no payload type gives \<open>ErrUnknownPacketType\<close>.
\<close>

theorem parseResponse_check_order:
  "(length raw < 9 \<longrightarrow> parseResponse raw = Inl (Err ErrInvalidPacketSize)) \<and>
   (9 \<le> length raw \<and> take 2 raw \<noteq> [0x42, 0x45] \<longrightarrow>
      parseResponse raw = Inl (Err ErrInvalidHeader)) \<and>
   (9 \<le> length raw \<and> take 2 raw = [0x42, 0x45] \<and> raw ! 6 \<noteq> 0xff \<longrightarrow>
      parseResponse raw = Inl (Err ErrInvalidEndOfHeader)) \<and>
   (9 \<le> length raw \<and> take 2 raw = [0x42, 0x45] \<and> raw ! 6 = 0xff \<and>
    Inr (ChecksumIEEE (drop 6 raw)) \<noteq> Uint32 (take 4 (drop 2 raw)) \<longrightarrow>
      parseResponse raw = Inl (Err ErrInvalidChecksum)) \<and>
   (9 \<le> length raw \<and> take 2 raw = [0x42, 0x45] \<and> raw ! 6 = 0xff \<and>
    Inr (ChecksumIEEE (drop 6 raw)) = Uint32 (take 4 (drop 2 raw)) \<and>
    raw ! 7 \<notin> {loginType, commandType, serverMessageType} \<longrightarrow>
      parseResponse raw = Inl (Err ErrUnknownPacketType))"
proof -
  have small: "length raw < 9 \<Longrightarrow> parseResponse raw = Inl (Err ErrInvalidPacketSize)"
    by (simp add: parseResponse_def minPacketSize_def)
  show ?thesis
    using small by (auto simp: parseResponse_unfold)
qed

text \<open>The five error cases of \<open>TestResponseParser\<close> (parser_test.go), each obtained from
  the theorem for claim C3.\<close>

theorem parseResponse_check_order_witness:
  "parseResponse [0, 0, 0, 0, 0, 0, 0, 0] = Inl (Err ErrInvalidPacketSize) \<and>
   parseResponse [0x47, 0x47, 0, 0, 0, 0, 0, 0, 0] = Inl (Err ErrInvalidHeader) \<and>
   parseResponse [0x42, 0x45, 0x12, 0xd9, 0x41, 0xff, 0, 0, 0] = Inl (Err ErrInvalidEndOfHeader) \<and>
   parseResponse [0x42, 0x45, 0, 0x23, 0, 0x85, 0xff, 0, 0] = Inl (Err ErrInvalidChecksum) \<and>
   parseResponse [0x42, 0x45, 0xba, 0x19, 0xae, 0x3c, 0xff, 0x05, 0] =
     Inl (Err ErrUnknownPacketType)"
  using parseResponse_check_order [of "[0, 0, 0, 0, 0, 0, 0, 0]"]
    parseResponse_check_order [of "[0x47, 0x47, 0, 0, 0, 0, 0, 0, 0]"]
    parseResponse_check_order [of "[0x42, 0x45, 0x12, 0xd9, 0x41, 0xff, 0, 0, 0]"]
    parseResponse_check_order [of "[0x42, 0x45, 0, 0x23, 0, 0x85, 0xff, 0, 0]"]
    parseResponse_check_order [of "[0x42, 0x45, 0xba, 0x19, 0xae, 0x3c, 0xff, 0x05, 0]"]
  by (simp add: crc_eval Uint32_def loginType_def commandType_def serverMessageType_def)

text \<open>
  Claim C4 says that every byte string whose stored CRC32 differs from the CRC32 of its
  payload decodes to \<open>ErrInvalidChecksum\<close>. The datagram of the test case
  "Invalid packet ID" has such a mismatch (its payload \<open>00 00 00\<close> has the checksum
  \<open>0xff41d912\<close>, its field holds 0) and decodes to \<open>ErrInvalidHeader\<close>: the header
  checks come first.
\<close>

theorem corrupted_crc_counterexample:
  "Inr (ChecksumIEEE (drop 6 [0x47, 0x47, 0, 0, 0, 0, 0, 0, 0])) \<noteq>
     Uint32 (take 4 (drop 2 [0x47, 0x47, 0, 0, 0, 0, 0, 0, 0])) \<and>
   parseResponse [0x47, 0x47, 0, 0, 0, 0, 0, 0, 0] = Inl (Err ErrInvalidHeader)"
  by (simp add: parseResponse_unfold crc_eval Uint32_def)

text \<open>
  Claim C4, amended: every byte string of at least 9 bytes that starts with \<open>0x42 0x45\<close>,
  has \<open>0xff\<close> at index 6, and whose stored CRC32 differs from the CRC32 of its payload
  decodes to \<open>ErrInvalidChecksum\<close>.
\<close>

theorem corrupted_crc_after_header_checks:
  assumes "9 \<le> length b" and "take 2 b = [0x42, 0x45]" and "b ! 6 = 0xff"
    and "Inr (ChecksumIEEE (drop 6 b)) \<noteq> Uint32 (take 4 (drop 2 b))"
  shows "parseResponse b = Inl (Err ErrInvalidChecksum)"
  using assms by (simp add: parseResponse_unfold)

text \<open>The test case "Invalid checksum" of parser_test.go.\<close>

theorem corrupted_crc_after_header_checks_witness:
  "parseResponse [0x42, 0x45, 0, 0x23, 0, 0x85, 0xff, 0, 0] = Inl (Err ErrInvalidChecksum)"
  by (rule corrupted_crc_after_header_checks) (simp_all add: crc_eval Uint32_def)

text \<open>
  Claim C10 says that \<open>parseResponse\<close> never reads outside its input. The datagram
  \<open>42 45 da b3 83 fe ff 01 00 00\<close> passes every check (its checksum is right), is of
  the command type, and its body after the sequence byte is the single byte \<open>0x00\<close>:
  \<open>newCommandResponse\<close> takes it for a multi-part header and reads \<open>raw[2]\<close> of a
  two-byte slice, which panics.
\<close>

theorem parseResponse_short_multi_header_panics:
  "parseResponse [0x42, 0x45, 0xda, 0xb3, 0x83, 0xfe, 0xff, 0x01, 0x00, 0x00] = Inl Panic"
  by (simp add: parseResponse_unfold crc_eval Uint32_def loginType_def commandType_def
      newCommandResponse_def multiPacketType_def index_def sliceFrom_def andThen_def)

section \<open>Decoding what the encoder produced\<close>





section \<open>Fragments and the dropped replies\<close>

lemma ucast_of_nat_byte: "ucast (of_nat a :: 64 word) = (of_nat a :: 8 word)"
  by (rule bit_word_eqI) (auto simp: bit_simps)

lemma fresh_expected_aux:
  "fold (\<lambda>i m. insert (of_nat i :: byte) m) [0..<k] s = s \<union> of_nat ` {0..<k}"
  by (induction k arbitrary: s) (auto simp: atLeastLessThanSuc)

lemma fresh_expected: "expected (newFragmentedResponse n) = {i. i < n}"
proof -
  have "(of_nat ` {0..<unat n} :: byte set) = {i. i < n}"
  proof (intro set_eqI iffI)
    fix i :: byte
    assume "i \<in> of_nat ` {0..<unat n}"
    then obtain j where j: "j < unat n" "i = of_nat j" by auto
    moreover have "unat n < 256" using unsigned_less [of n, where 'a = nat] by simp
    ultimately have "unat i = j" by (simp add: unat_of_nat)
    with j show "i \<in> {i. i < n}" by (simp add: word_less_nat_alt)
  next
    fix i :: byte
    assume "i \<in> {i. i < n}"
    then have "unat i < unat n" by (simp add: word_less_nat_alt)
    moreover have "i = of_nat (unat i)" by simp
    ultimately show "i \<in> of_nat ` {0..<unat n}" by (metis atLeastLessThan_iff imageI le0)
  qed
  then show ?thesis by (simp add: newFragmentedResponse_def fresh_expected_aux)
qed


lemma newFragmentedResponse_2:
  "newFragmentedResponse 2 = \<lparr>expected = {0, 1}, parts = [[], []]\<rparr>"
proof -
  have u: "unat (2 :: byte) = Suc (Suc 0)" by simp
  show ?thesis unfolding newFragmentedResponse_def u by auto
qed

text \<open>
  Claim C6. A command reply whose sequence number differs from the current value of the
  counter is dropped: \<open>handleCommandResponse\<close> returns the client as it was (so the counter
  and the fragment map are unchanged) and sends nothing on \<open>cmds\<close>.
\<close>

theorem stale_reply_dropped:
  assumes "seq r \<noteq> Client_seq c"
  shows "handleCommandResponse r c = Inr (c, None)"
  using assms by (simp add: handleCommandResponse_def)

text \<open>A client that has completed 261 exchanges expects sequence 5 and drops a reply with
  sequence 4.\<close>

theorem stale_reply_dropped_witness:
  "handleCommandResponse
     \<lparr>msg = [0x6f, 0x6b], seq = 4, multiSize = 0, multiIndex = 0, multi = False\<rparr>
     \<lparr>conn = None, ctr = 261, timeout = 1, keepAlive = 1, msgBufSize = 100, wg = 2,
      fragments = Map.empty, lastSend = 0, isDone = Some False, msgs = None\<rparr> =
   Inr (\<lparr>conn = None, ctr = 261, timeout = 1, keepAlive = 1, msgBufSize = 100, wg = 2,
         fragments = Map.empty, lastSend = 0, isDone = Some False, msgs = None\<rparr>, None)"
  by (rule stale_reply_dropped) (simp add: Client_seq_def)

text \<open>
  Claim C7. Adding a fragment whose part index is already stored (the index has a slot
  and is no longer in the missing set) overwrites the slot with the new body and leaves
  the missing set as it was; the size of the missing set and the completion status do not
  change.
\<close>

theorem duplicate_fragment:
  assumes "unat (multiIndex cr) < length (parts fm)" and "multiIndex cr \<notin> expected fm"
  shows "\<exists>fm'. add cr fm = Inr fm' \<and>
           parts fm' = (parts fm)[unat (multiIndex cr) := msg cr] \<and>
           parts fm' ! unat (multiIndex cr) = msg cr \<and>
           expected fm' = expected fm \<and>
           card (expected fm') = card (expected fm) \<and>
           completed fm' = completed fm"
  using assms by (simp add: add_def completed_def)

text \<open>An entry of two parts that holds part 1 receives part 1 again with another body.\<close>

theorem duplicate_fragment_witness:
  "add \<lparr>msg = [0x41], seq = 0, multiSize = 2, multiIndex = 1, multi = True\<rparr>
       (newFragmentedResponse 2) =
     Inr \<lparr>expected = {0}, parts = [[], [0x41]]\<rparr> \<and>
   (\<exists>fm'. add \<lparr>msg = [0x42], seq = 0, multiSize = 2, multiIndex = 1, multi = True\<rparr>
             \<lparr>expected = {0}, parts = [[], [0x41]]\<rparr> = Inr fm' \<and>
          parts fm' = [[], [0x42]] \<and> expected fm' = {0} \<and> \<not> completed fm')"
proof -
  have first: "add \<lparr>msg = [0x41], seq = 0, multiSize = 2, multiIndex = 1, multi = True\<rparr>
       (newFragmentedResponse 2) = Inr \<lparr>expected = {0}, parts = [[], [0x41]]\<rparr>"
    by (auto simp: add_def newFragmentedResponse_2)
  have "unat (multiIndex \<lparr>msg = [0x42], seq = 0, multiSize = 2, multiIndex = 1, multi = True\<rparr>)
      < length (parts \<lparr>expected = {0 :: byte}, parts = [[], [0x41 :: byte]]\<rparr>)"
    by simp
  moreover have
    "multiIndex \<lparr>msg = [0x42], seq = 0, multiSize = 2, multiIndex = 1, multi = True\<rparr>
      \<notin> expected \<lparr>expected = {0 :: byte}, parts = [[], [0x41 :: byte]]\<rparr>"
    by simp
  ultimately show ?thesis
    using first duplicate_fragment
      [of "\<lparr>msg = [0x42], seq = 0, multiSize = 2, multiIndex = 1, multi = True\<rparr>"
          "\<lparr>expected = {0}, parts = [[], [0x41]]\<rparr>"]
    by (auto simp: completed_def)
qed

section \<open>Steps of the receiver and the counter\<close>

lemma handleCommandResponse_cases:
  "handleCommandResponse r c =
     (if seq r \<noteq> Client_seq c then Inr (c, None)
      else if \<not> multi r then Inr (incr c, Some (msg r))
      else
        case add r (case fragments c (seq r) of
                      Some fr \<Rightarrow> fr
                    | None \<Rightarrow> newFragmentedResponse (multiSize r)) of
          Inl f \<Rightarrow> Inl f
        | Inr fr' \<Rightarrow>
            if completed fr'
            then Inr (incr (c\<lparr>fragments := (fragments c)(seq r \<mapsto> fr')\<rparr>),
                      Some (message_joined fr'))
            else Inr (c\<lparr>fragments := (fragments c)(seq r \<mapsto> fr')\<rparr>, None))"
  by (simp add: handleCommandResponse_def Let_def split: option.splits sum.splits)




subsection \<open>Options and \<open>connect\<close> leave the counter alone\<close>


lemma applyOptions_durations:
  assumes "\<forall>opt \<in> set pre. \<exists>d. opt = Timeout d \<or> opt = KeepAlive d"
  shows "\<exists>c'. msgBufSize c' = msgBufSize c \<and>
           (\<forall>rest. applyOptions (pre @ rest) c = applyOptions rest c')"
  using assms
proof (induction pre arbitrary: c)
  case Nil
  then show ?case by auto
next
  case (Cons opt pre)
  from Cons.prems obtain d where d: "opt = Timeout d \<or> opt = KeepAlive d" by auto
  from Cons.prems have rest: "\<forall>opt \<in> set pre. \<exists>d. opt = Timeout d \<or> opt = KeepAlive d"
    by simp
  from d show ?case
  proof
    assume o: "opt = Timeout d"
    from Cons.IH [OF rest, of "c\<lparr>timeout := d\<rparr>"] obtain c' where
      "msgBufSize c' = msgBufSize c"
      "\<forall>rest. applyOptions (pre @ rest) (c\<lparr>timeout := d\<rparr>) = applyOptions rest c'"
      by auto
    then show ?thesis using o by (auto simp: Timeout_def)
  next
    assume o: "opt = KeepAlive d"
    from Cons.IH [OF rest, of "c\<lparr>keepAlive := d\<rparr>"] obtain c' where
      "msgBufSize c' = msgBufSize c"
      "\<forall>rest. applyOptions (pre @ rest) (c\<lparr>keepAlive := d\<rparr>) = applyOptions rest c'"
      by auto
    then show ?thesis using o by (auto simp: KeepAlive_def)
  qed
qed


lemma connect_ok:
  assumes "dial e = Inr k" and "loginWrite e = None" and "loginEvent e = LoginSignal True"
  shows "connect c e = (c\<lparr>conn := Some k, wg := wg c + 2\<rparr>, None)"
  using assms by (simp add: connect_def Let_def)



section \<open>Construction\<close>

text \<open>
  Claim C9 says that for every size of at least 1 the option sets the capacity of the
  broadcast queue. \<open>MessageBuffer\<close> rejects only sizes below 1, and \<open>NewClient\<close> makes
  the channel with whatever size passed: for \<open>MessageBuffer(1 << 62)\<close> the buffer of
  \<open>2 ^ 62\<close> strings does not fit the address space, \<open>make\<close> panics, and so does
  \<open>NewClient\<close>, whatever the network would have answered.
\<close>

theorem MessageBuffer_huge_counterexample:
  "NewClient [MessageBuffer 4611686018427387904]
     \<lparr>dial = Inr \<lparr>closeResult = None, connClosed = False\<rparr>, loginWrite = None,
      loginEvent = LoginSignal True, allocLimit = 281474976710560\<rparr> = Inl Panic"
  by (simp add: NewClient_def MessageBuffer_def makeChan_def)

text \<open>
  Claim C9, amended. With the \<open>MessageBuffer\<close> option among \<open>Timeout\<close> and \<open>KeepAlive\<close>
  options: a size below 1 makes \<open>NewClient\<close> fail with \<open>ErrInvalidMessageBufferSize\<close>,
  whatever the network and the runtime do, and no client is returned; with a size of at
  least 1 whose buffer (16 bytes for each string) the runtime can allocate, and a
  successful login, the client's \<open>msgs\<close> channel has that capacity; without the option,
  where the runtime can allocate the buffer of 100 strings, the capacity is 100.
\<close>

theorem MessageBuffer_option_within_limit:
  assumes pre: "\<forall>opt \<in> set pre. \<exists>d. opt = Timeout d \<or> opt = KeepAlive d"
    and post: "\<forall>opt \<in> set post. \<exists>d. opt = Timeout d \<or> opt = KeepAlive d"
  shows "(n < 1 \<longrightarrow>
            NewClient (pre @ [MessageBuffer n] @ post) e =
              Inl (Err ErrInvalidMessageBufferSize)) \<and>
         (1 \<le> n \<and> 16 * n < 2 ^ 64 \<and> 16 * n \<le> allocLimit e \<and>
          dial e = Inr k \<and> loginWrite e = None \<and> loginEvent e = LoginSignal True \<longrightarrow>
            (\<exists>c. NewClient (pre @ [MessageBuffer n] @ post) e = Inr c \<and>
                 msgs c = Some \<lparr>chanCap = n, chanBuf = [], chanClosed = False\<rparr>)) \<and>
         (1600 \<le> allocLimit e \<and>
          dial e = Inr k \<and> loginWrite e = None \<and> loginEvent e = LoginSignal True \<longrightarrow>
            (\<exists>c. NewClient (pre @ post) e = Inr c \<and>
                 msgs c = Some \<lparr>chanCap = 100, chanBuf = [], chanClosed = False\<rparr>))"
proof -
  let ?c0 = "\<lparr>conn = None, ctr = 0, timeout = defaultTimeout, keepAlive = defaultKeepAlive,
               msgBufSize = defaultMessageBufferSize, wg = 0, fragments = Map.empty,
               lastSend = 0, isDone = None, msgs = None\<rparr>"
  from applyOptions_durations [OF pre, of ?c0] obtain ca where
    ca: "msgBufSize ca = 100" "\<And>rest. applyOptions (pre @ rest) ?c0 = applyOptions rest ca"
    by (auto simp: defaultMessageBufferSize_def)
  have small: "NewClient (pre @ [MessageBuffer n] @ post) e =
      Inl (Err ErrInvalidMessageBufferSize)" if "n < 1"
    using that by (simp add: NewClient_def ca(2) MessageBuffer_def)
  have built: "\<exists>c. NewClient (pre @ opts) e = Inr c \<and>
      msgs c = Some \<lparr>chanCap = v, chanBuf = [], chanClosed = False\<rparr>"
    if ok: "dial e = Inr k" "loginWrite e = None" "loginEvent e = LoginSignal True"
      and a: "applyOptions opts ca = Inr cb" and v: "msgBufSize cb = v"
      and fits: "0 \<le> v" "16 * v < 2 ^ 64" "16 * v \<le> allocLimit e" for opts cb v
  proof -
    from fits have "makeChan e v = Inr \<lparr>chanCap = v, chanBuf = [], chanClosed = False\<rparr>"
      by (simp add: makeChan_def)
    with a v show ?thesis
      by (simp add: NewClient_def ca(2) connect_ok [OF ok])
  qed
  have large: "\<exists>c. NewClient (pre @ [MessageBuffer n] @ post) e = Inr c \<and>
      msgs c = Some \<lparr>chanCap = n, chanBuf = [], chanClosed = False\<rparr>"
    if "1 \<le> n" and fits: "16 * n < 2 ^ 64" "16 * n \<le> allocLimit e"
      and ok: "dial e = Inr k" "loginWrite e = None" "loginEvent e = LoginSignal True"
  proof -
    from applyOptions_durations [OF post, of "ca\<lparr>msgBufSize := n\<rparr>"] obtain cb where
      b: "msgBufSize cb = msgBufSize (ca\<lparr>msgBufSize := n\<rparr>)"
        "\<forall>rest. applyOptions (post @ rest) (ca\<lparr>msgBufSize := n\<rparr>) = applyOptions rest cb"
      by blast
    from b(2) [THEN spec, of "[]"] b(1) have
      cb: "msgBufSize cb = n" "applyOptions post (ca\<lparr>msgBufSize := n\<rparr>) = Inr cb"
      by simp_all
    from \<open>1 \<le> n\<close> cb(2) have "applyOptions ([MessageBuffer n] @ post) ca = Inr cb"
      by (simp add: MessageBuffer_def)
    moreover from \<open>1 \<le> n\<close> have "0 \<le> n" by simp
    ultimately show ?thesis using built [OF ok _ cb(1) _ fits] by blast
  qed
  have absent: "\<exists>c. NewClient (pre @ post) e = Inr c \<and>
      msgs c = Some \<lparr>chanCap = 100, chanBuf = [], chanClosed = False\<rparr>"
    if fits: "1600 \<le> allocLimit e"
      and ok: "dial e = Inr k" "loginWrite e = None" "loginEvent e = LoginSignal True"
  proof -
    from applyOptions_durations [OF post, of ca] obtain cb where
      b: "msgBufSize cb = msgBufSize ca"
        "\<forall>rest. applyOptions (post @ rest) ca = applyOptions rest cb"
      by blast
    from b(2) [THEN spec, of "[]"] b(1) ca(1) have
      cb: "msgBufSize cb = 100" "applyOptions post ca = Inr cb"
      by simp_all
    from fits have "16 * (100 :: int) \<le> allocLimit e" by simp
    from built [OF ok cb(2) cb(1) _ _ this] show ?thesis by simp
  qed
  from small large absent show ?thesis by blast
qed

text \<open>\<open>MessageBuffer(0)\<close>, \<open>MessageBuffer(500)\<close> and no \<open>MessageBuffer\<close> option, between a
  timeout of five seconds and a keep-alive interval of seven.\<close>

theorem MessageBuffer_option_within_limit_witness:
  "NewClient [Timeout 5000000000, MessageBuffer 0, KeepAlive 7000000000]
     \<lparr>dial = Inr \<lparr>closeResult = None, connClosed = False\<rparr>, loginWrite = None,
      loginEvent = LoginSignal True, allocLimit = 281474976710560\<rparr> = Inl (Err ErrInvalidMessageBufferSize) \<and>
   (\<exists>c. NewClient [Timeout 5000000000, MessageBuffer 500, KeepAlive 7000000000]
          \<lparr>dial = Inr \<lparr>closeResult = None, connClosed = False\<rparr>, loginWrite = None,
      loginEvent = LoginSignal True, allocLimit = 281474976710560\<rparr> = Inr c \<and>
        msgs c = Some \<lparr>chanCap = 500, chanBuf = [], chanClosed = False\<rparr>) \<and>
   (\<exists>c. NewClient [Timeout 5000000000, KeepAlive 7000000000]
          \<lparr>dial = Inr \<lparr>closeResult = None, connClosed = False\<rparr>, loginWrite = None,
      loginEvent = LoginSignal True, allocLimit = 281474976710560\<rparr> = Inr c \<and>
        msgs c = Some \<lparr>chanCap = 100, chanBuf = [], chanClosed = False\<rparr>)"
proof -
  let ?e = "\<lparr>dial = Inr \<lparr>closeResult = None, connClosed = False\<rparr>, loginWrite = None,
      loginEvent = LoginSignal True, allocLimit = 281474976710560\<rparr>"
  have pre: "\<forall>opt \<in> set [Timeout 5000000000]. \<exists>d. opt = Timeout d \<or> opt = KeepAlive d"
    by auto
  have post: "\<forall>opt \<in> set [KeepAlive 7000000000]. \<exists>d. opt = Timeout d \<or> opt = KeepAlive d"
    by auto
  from MessageBuffer_option_within_limit
         [OF pre post, of 0 ?e "\<lparr>closeResult = None, connClosed = False\<rparr>"]
    MessageBuffer_option_within_limit
         [OF pre post, of 500 ?e "\<lparr>closeResult = None, connClosed = False\<rparr>"]
  show ?thesis by simp
qed

section \<open>Closing\<close>

text \<open>A second \<open>Close\<close> after one that returned is a no-op and returns nil.\<close>

lemma Close_twice:
  assumes "Close c = Inr (r, c')"
  shows "Close c' = Inr (None, c')"
  using assms
  by (auto simp: Close_def Let_def split: option.splits if_splits)

text \<open>
  Claim C8 says that closing a client that never completed opening is a no-op without
  panic. When \<open>net.Dial\<close> fails (here: an address without a port), \<open>connect\<close> returns
  with \<open>c.conn\<close> nil, \<open>NewClient\<close> calls \<open>c.Close()\<close>, and \<open>Close\<close> ends in
  \<open>c.conn.Close()\<close> on the nil interface: \<open>NewClient\<close> panics instead of returning the
  dial error. (The default channel of 100 strings is within the allocation limit, so the
  panic is the one of \<open>Close\<close>.)
\<close>

theorem NewClient_dial_failure_panics:
  "NewClient []
     \<lparr>dial = Inl (ErrNet ''dial udp: address 127.0.0.1: missing port in address''),
      loginWrite = None, loginEvent = LoginTimer, allocLimit = 281474976710560\<rparr> =
     Inl Panic"
  by (simp add: NewClient_def makeChan_def connect_def Close_def Let_def
      defaultMessageBufferSize_def)

section \<open>A fragment entry that outlives its reply\<close>

lemma receiver_append:
  "receiver (xs @ ys) c =
     (case receiver xs c of
        Inl f \<Rightarrow> Inl f
      | Inr (c', o1) \<Rightarrow>
          (case receiver ys c' of
             Inl f \<Rightarrow> Inl f
           | Inr (c'', o2) \<Rightarrow> Inr (c'', o1 @ o2)))"
  by (induction xs arbitrary: c) (auto split: sum.splits prod.splits)

lemma receiver_singles:
  assumes "ctr c = of_nat a"
  shows "receiver
           (map (\<lambda>i. \<lparr>msg = [], seq = of_nat i, multiSize = 0, multiIndex = 0, multi = False\<rparr>)
              [a..<a + n]) c =
         Inr (c\<lparr>ctr := of_nat (a + n)\<rparr>, replicate n [])"
  using assms
proof (induction n arbitrary: a c)
  case 0
  then show ?case by simp
next
  case (Suc n)
  have l: "[a..<a + Suc n] = a # [Suc a..<Suc a + n]"
    by (simp add: upt_conv_Cons)
  have i: "ctr (incr c) = of_nat (Suc a)"
    using Suc.prems by (simp add: incr_def)
  have s: "Client_seq c = of_nat a"
    using Suc.prems by (simp add: Client_seq_def ucast_of_nat_byte)
  show ?case
    unfolding l
    using Suc.IH [OF i] s
    by (simp add: handleCommandResponse_cases incr_def)
qed

text \<open>
  Claim C2 says that the fragments of every multi-part reply are joined in index order.
  The entry of a delivered reply stays in \<open>c.fragments\<close> with an empty missing set, and
  the sequence byte comes back after 256 exchanges. A fresh client receives the two-part
  reply "A", "B" under sequence 0, then 255 single-packet replies under the sequences
  1 to 255, then the two-part reply "C", "D" under sequence 0 again, in index order. The
  first fragment "C" is stored into the old entry, which counts as complete at once: the
  caller receives "CB", and the fragment "D" is dropped as stale.
\<close>

theorem stale_entry_breaks_reassembly:
  "\<exists>c0 c.
     NewClient []
       \<lparr>dial = Inr \<lparr>closeResult = None, connClosed = False\<rparr>, loginWrite = None,
        loginEvent = LoginSignal True, allocLimit = 281474976710560\<rparr> = Inr c0 \<and>
     receiver
       ([\<lparr>msg = [0x41], seq = 0, multiSize = 2, multiIndex = 0, multi = True\<rparr>,
         \<lparr>msg = [0x42], seq = 0, multiSize = 2, multiIndex = 1, multi = True\<rparr>] @
        map (\<lambda>i. \<lparr>msg = [], seq = of_nat i, multiSize = 0, multiIndex = 0, multi = False\<rparr>)
          [1..<256] @
        [\<lparr>msg = [0x43], seq = 0, multiSize = 2, multiIndex = 0, multi = True\<rparr>,
         \<lparr>msg = [0x44], seq = 0, multiSize = 2, multiIndex = 1, multi = True\<rparr>]) c0 =
       Inr (c, [[0x41, 0x42]] @ replicate 255 [] @ [[0x43, 0x42]])"
proof -
  let ?e = "\<lparr>dial = Inr \<lparr>closeResult = None, connClosed = False\<rparr>, loginWrite = None,
        loginEvent = LoginSignal True, allocLimit = 281474976710560\<rparr>"
  let ?c0 = "\<lparr>conn = Some \<lparr>closeResult = None, connClosed = False\<rparr>, ctr = 0,
      timeout = defaultTimeout, keepAlive = defaultKeepAlive,
      msgBufSize = defaultMessageBufferSize, wg = 2, fragments = Map.empty, lastSend = 0,
      isDone = Some False,
      msgs = Some \<lparr>chanCap = defaultMessageBufferSize, chanBuf = [], chanClosed = False\<rparr>\<rparr>"
  let ?first = "[\<lparr>msg = [0x41], seq = 0, multiSize = 2, multiIndex = 0, multi = True\<rparr>,
         \<lparr>msg = [0x42 :: byte], seq = 0, multiSize = 2, multiIndex = 1, multi = True\<rparr>]"
  let ?singles =
    "map (\<lambda>i. \<lparr>msg = [] :: byte list, seq = of_nat i, multiSize = 0, multiIndex = 0,
               multi = False\<rparr>) [1..<256]"
  let ?second = "[\<lparr>msg = [0x43], seq = 0, multiSize = 2, multiIndex = 0, multi = True\<rparr>,
         \<lparr>msg = [0x44 :: byte], seq = 0, multiSize = 2, multiIndex = 1, multi = True\<rparr>]"
  let ?c1 = "?c0\<lparr>ctr := 1,
      fragments := [0 \<mapsto> \<lparr>expected = {}, parts = [[0x41], [0x42]]\<rparr>]\<rparr>"
  have n: "NewClient [] ?e = Inr ?c0"
    by (simp add: NewClient_def makeChan_def connect_def Let_def defaultMessageBufferSize_def)
  have s1: "receiver ?first ?c0 = Inr (?c1, [[0x41, 0x42]])"
    by (simp add: handleCommandResponse_cases Client_seq_def incr_def add_def completed_def
        message_joined_def newFragmentedResponse_2)
  have u: "[1..<256] = [1..<1 + 255]" by simp
  have s2: "receiver ?singles ?c1 = Inr (?c1\<lparr>ctr := 256\<rparr>, replicate 255 [])"
    unfolding u using receiver_singles [of ?c1 1 255] by simp
  have "\<exists>c. receiver ?second (?c1\<lparr>ctr := 256\<rparr>) = Inr (c, [[0x43, 0x42]])"
    by (simp add: handleCommandResponse_cases Client_seq_def incr_def add_def completed_def
        message_joined_def)
  then obtain c where s3: "receiver ?second (?c1\<lparr>ctr := 256\<rparr>) = Inr (c, [[0x43, 0x42]])" ..
  have "receiver (?first @ ?singles @ ?second) ?c0 =
      Inr (c, [[0x41, 0x42]] @ replicate 255 [] @ [[0x43, 0x42]])"
    by (simp only: receiver_append s1 s2 s3 sum.case prod.case)
  with n show ?thesis by blast
qed

section \<open>Reassembly when no entry is left over\<close>

lemma fold_store_length:
  "length (fold (\<lambda>f ps. ps[unat (multiIndex f) := msg f]) frs ps) = length ps"
  by (induction frs arbitrary: ps) simp_all

lemma fold_store_other:
  assumes "\<forall>f \<in> set frs. unat (multiIndex f) \<noteq> i"
  shows "fold (\<lambda>f ps. ps[unat (multiIndex f) := msg f]) frs ps ! i = ps ! i"
  using assms by (induction frs arbitrary: ps) simp_all

lemma fold_store_nth:
  assumes "distinct (map multiIndex frs)" and "f \<in> set frs"
    and "unat (multiIndex f) < length ps"
  shows "fold (\<lambda>f ps. ps[unat (multiIndex f) := msg f]) frs ps ! unat (multiIndex f) = msg f"
  using assms
proof (induction frs arbitrary: ps)
  case Nil
  then show ?case by simp
next
  case (Cons g frs)
  show ?case
  proof (cases "f = g")
    case True
    have "\<forall>h \<in> set frs. unat (multiIndex h) \<noteq> unat (multiIndex g)"
    proof
      fix h
      assume "h \<in> set frs"
      moreover from Cons.prems(1) have "multiIndex g \<notin> multiIndex ` set frs" by simp
      ultimately have "multiIndex h \<noteq> multiIndex g" by (metis imageI)
      then show "unat (multiIndex h) \<noteq> unat (multiIndex g)"
        by (simp add: word_unat_eq_iff)
    qed
    from fold_store_other [OF this] Cons.prems(3) True show ?thesis by simp
  next
    case False
    with Cons.prems have "f \<in> set frs" "distinct (map multiIndex frs)" by auto
    from Cons.IH [OF this(2) this(1)] Cons.prems(3) show ?thesis by simp
  qed
qed

lemma handleCommandResponse_fragment:
  assumes "seq f = Client_seq c" and "multi f" and "multiSize f = k"
    and "(case fragments c (Client_seq c) of
            Some fr \<Rightarrow> fr | None \<Rightarrow> newFragmentedResponse k) = fm"
    and "add f fm = Inr fm'"
  shows "handleCommandResponse f c =
     (if completed fm'
      then Inr (incr (c\<lparr>fragments := (fragments c)(Client_seq c \<mapsto> fm')\<rparr>),
                Some (message_joined fm'))
      else Inr (c\<lparr>fragments := (fragments c)(Client_seq c \<mapsto> fm')\<rparr>, None))"
  unfolding handleCommandResponse_cases assms(1) assms(3) assms(4) assms(5)
  using assms(2) by simp

lemma receiver_fragments:
  assumes "\<forall>f \<in> set frs. seq f = Client_seq c \<and> multi f \<and> multiSize f = k"
    and "distinct (map multiIndex frs)"
    and "frs \<noteq> []"
    and "(case fragments c (Client_seq c) of
            Some fr \<Rightarrow> fr | None \<Rightarrow> newFragmentedResponse k) = fm"
    and "expected fm = multiIndex ` set frs"
    and "\<forall>f \<in> set frs. unat (multiIndex f) < length (parts fm)"
  shows "\<exists>c'. receiver frs c =
           Inr (c', [concat (fold (\<lambda>f ps. ps[unat (multiIndex f) := msg f]) frs (parts fm))]) \<and>
              ctr c' = ctr c + 1"
  using assms
proof (induction frs arbitrary: c fm)
  case Nil
  then show ?case by simp
next
  case (Cons f frs)
  define fm' where
    "fm' = fm\<lparr>parts := (parts fm)[unat (multiIndex f) := msg f],
              expected := expected fm - {multiIndex f}\<rparr>"
  define c2 where "c2 = c\<lparr>fragments := (fragments c)(Client_seq c \<mapsto> fm')\<rparr>"
  from Cons.prems(1) have f: "seq f = Client_seq c" "multi f" "multiSize f = k" by auto
  from Cons.prems(6) have inb: "unat (multiIndex f) < length (parts fm)" by simp
  then have a: "add f fm = Inr fm'" by (simp add: add_def fm'_def)
  from Cons.prems(2) have nin: "multiIndex f \<notin> multiIndex ` set frs" by auto
  with Cons.prems(5) have e: "expected fm' = multiIndex ` set frs"
    by (auto simp: fm'_def)
  have pf: "parts fm' = (parts fm)[unat (multiIndex f) := msg f]"
    by (simp add: fm'_def)
  note h = handleCommandResponse_fragment [OF f Cons.prems(4) a, folded c2_def]
  show ?case
  proof (cases "frs = []")
    case True
    with e have "completed fm'" by (simp add: completed_def)
    with h have "handleCommandResponse f c = Inr (incr c2, Some (message_joined fm'))"
      by simp
    moreover have "ctr (incr c2) = ctr c + 1" by (simp add: incr_def c2_def)
    ultimately show ?thesis
      unfolding True by (simp add: message_joined_def pf)
  next
    case False
    with e have "expected fm' \<noteq> {}" by simp
    then have "\<not> completed fm'" by (simp add: completed_def)
    with h have h2: "handleCommandResponse f c = Inr (c2, None)" by simp
    have s2: "Client_seq c2 = Client_seq c" by (simp add: Client_seq_def c2_def)
    have c2c: "ctr c2 = ctr c" by (simp add: c2_def)
    have p1: "\<forall>g \<in> set frs. seq g = Client_seq c2 \<and> multi g \<and> multiSize g = k"
      using Cons.prems(1) by (simp add: s2)
    have p2: "distinct (map multiIndex frs)" using Cons.prems(2) by simp
    have p4: "(case fragments c2 (Client_seq c2) of
                 Some fr \<Rightarrow> fr | None \<Rightarrow> newFragmentedResponse k) = fm'"
      unfolding s2 by (simp add: c2_def)
    have p6: "\<forall>g \<in> set frs. unat (multiIndex g) < length (parts fm')"
      using Cons.prems(6) by (simp add: pf)
    from Cons.IH [OF p1 p2 False p4 e p6] obtain c' where
      r: "receiver frs c2 =
            Inr (c', [concat (fold (\<lambda>f ps. ps[unat (multiIndex f) := msg f]) frs (parts fm'))])"
      and cc: "ctr c' = ctr c2 + 1"
      by blast
    from h2 r cc c2c show ?thesis by (simp add: pf)
  qed
qed

text \<open>
  Where the map holds no entry for the current sequence, the statement of claim C2
  holds: the \<open>k\<close> fragments of a reply, in any order of arrival, are joined in index
  order and delivered when the last one arrives.
\<close>

lemma reassembly_any_order:
  assumes none: "fragments c (Client_seq c) = None"
    and frs: "\<forall>f \<in> set frs. seq f = Client_seq c \<and> multi f \<and> multiSize f = k \<and>
                msg f = body (multiIndex f)"
    and dist: "distinct (map multiIndex frs)"
    and all: "multiIndex ` set frs = {i. i < k}"
    and pos: "0 < k"
  shows "\<exists>c'. receiver frs c =
           Inr (c', [concat (map (\<lambda>i. body (of_nat i)) [0..<unat k])]) \<and>
              ctr c' = ctr c + 1"
proof -
  let ?fm = "case fragments c (Client_seq c) of
               Some fr \<Rightarrow> fr | None \<Rightarrow> newFragmentedResponse k"
  let ?store = "fold (\<lambda>f ps. ps[unat (multiIndex f) := msg f]) frs (replicate (unat k) [])"
  have fm: "?fm = newFragmentedResponse k" by (simp add: none)
  have ps: "parts ?fm = replicate (unat k) []"
    by (simp add: none newFragmentedResponse_def)
  have "0 \<in> multiIndex ` set frs" unfolding all using pos by simp
  then have ne: "frs \<noteq> []" by auto
  have p1: "\<forall>f \<in> set frs. seq f = Client_seq c \<and> multi f \<and> multiSize f = k"
    using frs by simp
  have p4: "expected ?fm = multiIndex ` set frs"
    unfolding fm fresh_expected all ..
  have inb: "unat (multiIndex f) < unat k" if "f \<in> set frs" for f
  proof -
    from that have "multiIndex f \<in> multiIndex ` set frs" by (rule imageI)
    then have "multiIndex f < k" unfolding all by simp
    then show ?thesis by (simp add: word_less_nat_alt)
  qed
  then have p5: "\<forall>f \<in> set frs. unat (multiIndex f) < length (parts ?fm)"
    unfolding ps by simp
  have eq: "?store = map (\<lambda>i. body (of_nat i)) [0..<unat k]"
  proof (rule nth_equalityI)
    show "length ?store = length (map (\<lambda>i. body (of_nat i)) [0..<unat k])"
      by (simp add: fold_store_length)
  next
    fix i
    assume "i < length ?store"
    then have i: "i < unat k" by (simp add: fold_store_length)
    have ui: "unat (of_nat i :: byte) = i"
      using i unsigned_less [of k, where 'a = nat] by (simp add: unat_of_nat)
    with i have "(of_nat i :: byte) < k" by (simp add: word_less_nat_alt)
    then have "(of_nat i :: byte) \<in> multiIndex ` set frs" unfolding all by simp
    then obtain f where f: "f \<in> set frs" "multiIndex f = of_nat i"
      by (auto simp: image_iff)
    from fold_store_nth [OF dist f(1), of "replicate (unat k) []"] inb [OF f(1)]
    have "?store ! unat (multiIndex f) = msg f" by simp
    with f frs ui i show "?store ! i = map (\<lambda>i. body (of_nat i)) [0..<unat k] ! i"
      by simp
  qed
  from receiver_fragments [OF p1 dist ne refl p4 p5] show ?thesis
    unfolding ps eq .
qed





section \<open>The sequence counter, claim C5\<close>




end
